theory Spec2Isabelle
  imports Main "HOL-Library.Sublist"
begin

section \<open>Strings\<close>

text \<open>
  JavaScript strings are modelled as \<^typ>\<open>string\<close>; the development covers ASCII text.
  \<open>String.prototype.toLowerCase\<close> maps the letters A to Z to a to z and leaves every
  other character alone.
\<close>

definition lower_char :: "char \<Rightarrow> char" where
  "lower_char c =
     (case map_of (zip ''ABCDEFGHIJKLMNOPQRSTUVWXYZ'' ''abcdefghijklmnopqrstuvwxyz'') c of
        Some l \<Rightarrow> l
      | None \<Rightarrow> c)"

definition toLowerCase :: "string \<Rightarrow> string" where
  "toLowerCase s = map lower_char s"

text \<open>\<open>hay.includes(t)\<close>: \<open>t\<close> occurs in \<open>hay\<close> as a contiguous run of characters.\<close>

fun str_includes :: "string \<Rightarrow> string \<Rightarrow> bool" where
  "str_includes [] t = (t = [])"
| "str_includes (c # cs) t = (prefix t (c # cs) \<or> str_includes cs t)"

text \<open>The white space of \<open>\s\<close> and of \<open>trim()\<close>: space, tab, line feed, vertical tab,
  form feed, carriage return.\<close>

definition is_space :: "char \<Rightarrow> bool" where
  "is_space c = (c \<in> set [CHR '' '', CHR 0x09, CHR 0x0A, CHR 0x0B, CHR 0x0C, CHR 0x0D])"

definition trim :: "string \<Rightarrow> string" where
  "trim s = rev (dropWhile is_space (rev (dropWhile is_space s)))"

text \<open>A value is truthy when it is present and not the empty string
  (\<open>null\<close>, \<open>undefined\<close> and \<open>''\<close> are the falsy values a JSON string field can take).\<close>

fun truthy :: "string option \<Rightarrow> bool" where
  "truthy None = False"
| "truthy (Some s) = (s \<noteq> [])"

section \<open>Tier from flags\<close>

fun parseTierFromFlags :: "string option \<Rightarrow> string" where
  "parseTierFromFlags None = ''production''"
| "parseTierFromFlags (Some fl) =
     (if fl = [] then ''production''
      else let tokens = toLowerCase fl in
        if str_includes tokens ''experimental'' then ''experimental''
        else if str_includes tokens ''beta'' then ''beta''
        else ''production'')"

section \<open>Search tokens\<close>

text \<open>
  \<open>parseQueryToTokens\<close> runs the regular expression \<open>/"([^"]+)"|(\S+)/g\<close> over the
  lower-cased, trimmed query. At a position the first alternative matches when the
  character is a double quote, at least one character other than a double quote
  follows, and a closing double quote ends that run; the second alternative matches the
  longest run of characters that are not white space. Where neither matches (the
  character is white space) the scan moves one character on. The token is the first
  group, or else the second, trimmed, and is kept when it is not empty.
\<close>

definition pushTok :: "string \<Rightarrow> string list \<Rightarrow> string list" where
  "pushTok tok toks = (if tok \<noteq> [] then tok # toks else toks)"

function scanTokens :: "string \<Rightarrow> string list" where
  "scanTokens [] = []"
| "scanTokens (c # cs) =
     (let inner = takeWhile (\<lambda>x. x \<noteq> CHR 0x22) cs;
          after = dropWhile (\<lambda>x. x \<noteq> CHR 0x22) cs
      in if c = CHR 0x22 \<and> inner \<noteq> [] \<and> after \<noteq> []
         then pushTok (trim inner) (scanTokens (tl after))
         else if \<not> is_space c
         then pushTok (trim (c # takeWhile (\<lambda>x. \<not> is_space x) cs))
                (scanTokens (dropWhile (\<lambda>x. \<not> is_space x) cs))
         else scanTokens cs)"
  by pat_completeness auto
termination
proof (relation "measure length")
  show "wf (measure length)" by simp
next
  fix c :: char and cs inner after :: string
  assume "after = dropWhile (\<lambda>x. x \<noteq> CHR 0x22) cs"
  then have "length (tl after) \<le> length cs"
    using length_dropWhile_le [of "\<lambda>x. x \<noteq> CHR 0x22" cs] by simp
  then show "(tl after, c # cs) \<in> measure length" by simp
next
  fix c :: char and cs :: string
  show "(dropWhile (\<lambda>x. \<not> is_space x) cs, c # cs) \<in> measure length"
    using length_dropWhile_le [of "\<lambda>x. \<not> is_space x" cs] by simp
next
  fix c :: char and cs :: string
  show "(cs, c # cs) \<in> measure length" by simp
qed

definition parseQueryToTokens :: "string \<Rightarrow> string list" where
  "parseQueryToTokens qraw =
     (let q = trim (toLowerCase qraw) in if q = [] then [] else scanTokens q)"

fun matchesLoop :: "string \<Rightarrow> string list \<Rightarrow> bool" where
  "matchesLoop hay [] = True"
| "matchesLoop hay (t # ts) = (if \<not> str_includes hay t then False else matchesLoop hay ts)"

text \<open>\<open>hayLower\<close> is \<open>None\<close> when the record has no \<open>_hayLower\<close> field.\<close>

definition matchesQuery :: "string option \<Rightarrow> string list \<Rightarrow> bool" where
  "matchesQuery hayLower tokens =
     (if tokens = [] then True
      else matchesLoop (case hayLower of None \<Rightarrow> [] | Some h \<Rightarrow> h) tokens)"

section \<open>Data model\<close>

text \<open>
  The JSON records of the dataset, with the fields the filter engine reads. An optional
  field is an \<open>option\<close>; \<open>_scope\<close>, \<open>_hayLower\<close> and \<open>_subsystems\<close> are the fields the
  loader attaches (here \<open>d_scope\<close>, \<open>d_hayLower\<close>, \<open>d_subsystems\<close>). The \<open>versions\<close>
  object maps a version identifier to its entry, an object; an identifier with no entry,
  or with the entry \<open>null\<close>, is not in the domain of the map.
\<close>

record vinfo =
  tier :: "string option"
  changed_from_prev :: bool

record mentions_t =
  docs :: "string list option"
  blogs :: "string list option"

record setting =
  name :: string
  description :: "string option"
  category :: "string option"
  flags :: "string option"
  cloud_only :: bool
  versions :: "(string \<rightharpoonup> vinfo) option"
  mentions :: "mentions_t option"
  subsystems :: "string list option"
  d_scope :: "string option"
  d_hayLower :: "string option"
  d_subsystems :: "string list option"

text \<open>The dataset document: a collection is \<open>None\<close> when the field is not an array.\<close>

record dataset =
  versions_list :: "string list"
  settings :: "setting list option"
  merge_tree_settings :: "setting list option"
  format_settings :: "setting list option"

section \<open>Controls\<close>

text \<open>
  A toggle group is the list of its buttons in document order; a button carries its
  \<open>dataset.value\<close>, whether it has the class \<open>selected\<close>, and the count shown on it.
  A container is \<open>None\<close> when the page has no such element.
\<close>

record toggle =
  data_value :: string
  selected :: bool
  count :: "nat option"

type_synonym container = "toggle list option"

record opt =
  opt_value :: string
  opt_count :: "nat option"

record ui =
  searchInput :: string
  versionSelect :: string
  changedOnly :: bool
  scopeGroup :: container
  topicGroup :: container
  tierGroup :: container
  specialGroup :: container

definition buildToggleGroup :: "container \<Rightarrow> opt list \<Rightarrow> string list \<Rightarrow> container" where
  "buildToggleGroup container options selectedSet =
     (case container of
        None \<Rightarrow> None
      | Some _ \<Rightarrow>
          Some (map (\<lambda>opt. \<lparr>data_value = opt_value opt,
                             selected = (opt_value opt \<in> set selectedSet),
                             count = opt_count opt\<rparr>) options))"

text \<open>The click listener of the button at position \<open>i\<close> of a group; only the buttons
  of the group have one.\<close>

record click_event =
  altKey :: bool
  metaKey :: bool
  shiftKey :: bool

definition click :: "click_event \<Rightarrow> nat \<Rightarrow> toggle list \<Rightarrow> toggle list" where
  "click ev i btns =
     (if \<not> i < length btns then btns
      else if altKey ev \<or> metaKey ev \<or> shiftKey ev
      then (let cleared = map (\<lambda>b. b\<lparr>selected := False\<rparr>) btns
            in cleared[i := (cleared ! i)\<lparr>selected := True\<rparr>])
      else btns[i := (btns ! i)\<lparr>selected := \<not> selected (btns ! i)\<rparr>])"

definition setAllSelected :: "container \<Rightarrow> bool \<Rightarrow> container" where
  "setAllSelected container sel = map_option (map (\<lambda>b. b\<lparr>selected := sel\<rparr>)) container"

definition getSelectedValues :: "container \<Rightarrow> string list" where
  "getSelectedValues container =
     (case container of
        None \<Rightarrow> []
      | Some btns \<Rightarrow> map data_value (filter selected btns))"

definition getSelectedSet :: "container \<Rightarrow> string list option" where
  "getSelectedSet container =
     (case container of
        None \<Rightarrow> None
      | Some _ \<Rightarrow> (let vals = getSelectedValues container
                  in if vals \<noteq> [] then Some vals else None))"

definition getSelectedScopes :: "ui \<Rightarrow> string list" where
  "getSelectedScopes u =
     (let vals = getSelectedValues (scopeGroup u)
      in if vals \<noteq> [] then vals else [''session'', ''mergetree'', ''format''])"

text \<open>\<open>querySelectorAll('.toggle').length\<close>, and the size of \<open>new Set(values)\<close>.\<close>

definition toggleCount :: "container \<Rightarrow> nat" where
  "toggleCount container = (case container of None \<Rightarrow> 0 | Some btns \<Rightarrow> length btns)"

definition set_size :: "string list \<Rightarrow> nat" where
  "set_size xs = length (remdups xs)"

text \<open>
  \<open>getSearchTokens\<close> caches the tokens of the last raw query; the cached value is the
  value \<open>parseQueryToTokens\<close> returns for the current one.
\<close>

definition getSearchTokens :: "ui \<Rightarrow> string list" where
  "getSearchTokens u = parseQueryToTokens (trim (toLowerCase (searchInput u)))"

section \<open>Filter engine\<close>

definition or_default :: "string option \<Rightarrow> string \<Rightarrow> string" where
  "or_default x d = (case x of None \<Rightarrow> d | Some s \<Rightarrow> if s \<noteq> [] then s else d)"

text \<open>\<open>s.versions && s.versions[version]\<close>.\<close>

definition version_entry :: "setting \<Rightarrow> string \<Rightarrow> vinfo option" where
  "version_entry s version = (case versions s of None \<Rightarrow> None | Some m \<Rightarrow> m version)"

text \<open>\<open>vinfo?.tier || parseTierFromFlags(s.flags) || 'production'\<close>.\<close>

definition effective_tier :: "setting \<Rightarrow> vinfo \<Rightarrow> string" where
  "effective_tier s vi = or_default (tier vi) (or_default (Some (parseTierFromFlags (flags s))) ''production'')"

text \<open>\<open>s._subsystems || s.subsystems || []\<close>: an array is truthy, also when empty.\<close>

definition subs_of :: "setting \<Rightarrow> string list" where
  "subs_of s =
     (case d_subsystems s of
        Some xs \<Rightarrow> xs
      | None \<Rightarrow> (case subsystems s of Some ys \<Rightarrow> ys | None \<Rightarrow> []))"

definition topic_ok :: "string list \<Rightarrow> setting \<Rightarrow> bool" where
  "topic_ok selectedTopics s =
     (or_default (category s) ''Uncategorized'' \<in> set selectedTopics
      \<or> list_ex (\<lambda>x. x \<in> set selectedTopics) (subs_of s))"

definition applyTopicFilter :: "ui \<Rightarrow> bool" where
  "applyTopicFilter u =
     (let selectedTopics = getSelectedValues (topicGroup u);
          allTopicCount = toggleCount (topicGroup u)
      in set_size selectedTopics > 0 \<and> set_size selectedTopics < allTopicCount)"

record filter_opts =
  ignoreTier :: bool
  ignoreTopics :: bool

definition passFilters :: "ui \<Rightarrow> setting \<Rightarrow> filter_opts \<Rightarrow> bool" where
  "passFilters u s opts =
     (let version = versionSelect u;
          qTokens = getSearchTokens u;
          selectedTiers = getSelectedValues (tierGroup u);
          selectedTopics = getSelectedValues (topicGroup u)
      in case version_entry s version of
           None \<Rightarrow> False
         | Some vi \<Rightarrow>
             if \<not> ignoreTier opts \<and> selectedTiers \<noteq> []
                \<and> effective_tier s vi \<notin> set selectedTiers then False
             else if \<not> ignoreTopics opts \<and> applyTopicFilter u
                \<and> \<not> topic_ok selectedTopics s then False
             else if changedOnly u \<and> \<not> changed_from_prev vi then False
             else if \<not> matchesQuery (d_hayLower s) qTokens then False
             else True)"

text \<open>\<open>s.mentions && (Array.isArray(s.mentions.docs) ? s.mentions.docs.length : 0)\<close>,
  and the same for blogs: the number is falsy when it is 0.\<close>

definition mention_count :: "setting \<Rightarrow> (mentions_t \<Rightarrow> string list option) \<Rightarrow> nat" where
  "mention_count s field =
     (case mentions s of
        None \<Rightarrow> 0
      | Some m \<Rightarrow> (case field m of None \<Rightarrow> 0 | Some xs \<Rightarrow> length xs))"

text \<open>The predicate \<open>renderList\<close> filters the combined dataset with.\<close>

definition renderList_keep :: "ui \<Rightarrow> setting \<Rightarrow> bool" where
  "renderList_keep u s =
     (let version = versionSelect u;
          selectedTopics = getSelectedValues (topicGroup u);
          qTokens = getSearchTokens u;
          selectedTiers = getSelectedValues (tierGroup u);
          specialSel = getSelectedValues (specialGroup u)
      in if applyTopicFilter u \<and> \<not> topic_ok selectedTopics s then False
         else case version_entry s version of
           None \<Rightarrow> False
         | Some vi \<Rightarrow>
             if selectedTiers \<noteq> [] \<and> effective_tier s vi \<notin> set selectedTiers then False
             else if changedOnly u \<and> \<not> changed_from_prev vi then False
             else if ''cloud'' \<in> set specialSel \<and> \<not> cloud_only s then False
             else if ''refs'' \<in> set specialSel
                \<and> mention_count s docs = 0 \<and> mention_count s blogs = 0 then False
             else if qTokens = [] then True
             else matchesQuery (d_hayLower s) qTokens)"

section \<open>Dataset loader\<close>

text \<open>
  The two regular expressions of \<open>inferSubsystems\<close>, \<open>/(^|\b)s3(\b|_)/\<close> and
  \<open>/(^|\b)merge(s)?(\b|_)/\<close>. Before a word character, \<open>(^|\b)\<close> holds at the start of
  the text and after a character that is not a word character; after a word character,
  \<open>(\b|_)\<close> holds at the end of the text and before a character that is an underscore
  or not a word character. \<open>re_search\<close> tries every position, with the character before it.
\<close>

definition is_word :: "char \<Rightarrow> bool" where
  "is_word c =
     (c \<in> set ''abcdefghijklmnopqrstuvwxyzABCDEFGHIJKLMNOPQRSTUVWXYZ0123456789_'')"

definition boundary_before :: "char option \<Rightarrow> bool" where
  "boundary_before prev = (case prev of None \<Rightarrow> True | Some p \<Rightarrow> \<not> is_word p)"

definition boundary_after :: "string \<Rightarrow> bool" where
  "boundary_after rest = (case rest of [] \<Rightarrow> True | d # _ \<Rightarrow> \<not> is_word d \<or> d = CHR ''_'')"

fun re_search :: "(char option \<Rightarrow> string \<Rightarrow> bool) \<Rightarrow> char option \<Rightarrow> string \<Rightarrow> bool" where
  "re_search m prev [] = m prev []"
| "re_search m prev (c # cs) = (m prev (c # cs) \<or> re_search m (Some c) cs)"

definition re_s3_at :: "char option \<Rightarrow> string \<Rightarrow> bool" where
  "re_s3_at prev rest =
     (boundary_before prev \<and> prefix ''s3'' rest \<and> boundary_after (drop 2 rest))"

definition re_merge_at :: "char option \<Rightarrow> string \<Rightarrow> bool" where
  "re_merge_at prev rest =
     (boundary_before prev \<and> prefix ''merge'' rest
      \<and> ((prefix ''merges'' rest \<and> boundary_after (drop 6 rest))
         \<or> boundary_after (drop 5 rest)))"

definition tag_if :: "bool \<Rightarrow> string \<Rightarrow> string list" where
  "tag_if b x = (if b then [x] else [])"

text \<open>\<open>Array.from(new Set(xs))\<close>: the elements of \<open>xs\<close> in the order of their first
  occurrence.\<close>

definition uniq :: "'a list \<Rightarrow> 'a list" where
  "uniq xs = rev (remdups (rev xs))"

definition inferSubsystems :: "string \<Rightarrow> string \<Rightarrow> string \<Rightarrow> string list" where
  "inferSubsystems nm desc scope =
     (let t = toLowerCase (nm @ '' '' @ desc); inc = str_includes t
      in uniq
        (tag_if (scope = ''mergetree'') ''MergeTree''
         @ tag_if (scope = ''format'') ''Formats''
         @ tag_if (inc ''replica'' \<or> inc ''replicat'') ''Replicated''
         @ tag_if (inc ''distributed'') ''Distributed''
         @ tag_if (inc ''kafka'') ''Kafka''
         @ tag_if (inc ''zookeeper'' \<or> inc ''keeper'') ''ZooKeeper/Keeper''
         @ tag_if (inc ''mysql'') ''MySQL''
         @ tag_if (inc ''postgres'' \<or> inc ''psql'') ''PostgreSQL''
         @ tag_if (re_search re_s3_at None t \<or> inc ''minio'') ''S3''
         @ tag_if (inc ''azure'') ''Azure''
         @ tag_if (inc ''hdfs'') ''HDFS''
         @ tag_if (inc ''rocksdb'') ''RocksDB''
         @ tag_if (inc ''mutation'' \<or> inc ''lightweight_update'' \<or> inc '' update''
                   \<or> inc '' delete'') ''Mutations''
         @ tag_if (re_search re_merge_at None t) ''Merges''
         @ tag_if (inc ''thread'' \<and> inc ''pool'') ''Thread Pools''
         @ tag_if (inc ''on cluster'' \<or> inc ''distributed_ddl'' \<or> inc '' ddl'')
             ''Coordination/DDL''
         @ tag_if (inc ''mark_cache'' \<or> inc ''uncompressed_cache''
                   \<or> inc ''compiled_expression_cache'' \<or> inc ''filesystem_cache'') ''Caches''
         @ tag_if (inc ''log'' \<or> inc ''trace'' \<or> inc ''profile'' \<or> inc ''metrics''
                   \<or> inc ''prometheus'') ''Observability''
         @ tag_if (inc ''max_'' \<or> inc ''memory_'' \<or> inc ''timeout'' \<or> inc ''bandwidth''
                   \<or> inc ''_pool_'') ''Resource Control''
         @ tag_if (inc '' ssl'' \<or> inc ''secure'' \<or> inc ''password'' \<or> inc ''auth'')
             ''Security''))"

definition hay_of :: "setting \<Rightarrow> string" where
  "hay_of s = toLowerCase (name s @ '' '' @ or_default (description s) [])"

definition enrich_one :: "string \<Rightarrow> setting \<Rightarrow> setting" where
  "enrich_one scope s =
     s\<lparr>d_scope := (if scope \<noteq> [] then Some scope else d_scope s),
       d_hayLower := Some (hay_of s),
       d_subsystems := Some (inferSubsystems (name s) (or_default (description s) []) scope)\<rparr>"

definition enrich :: "setting list option \<Rightarrow> string \<Rightarrow> setting list option" where
  "enrich arr scope = map_option (map (enrich_one scope)) arr"

definition enrich_all :: "dataset \<Rightarrow> dataset" where
  "enrich_all d =
     d\<lparr>settings := enrich (settings d) ''session'',
       merge_tree_settings := enrich (merge_tree_settings d) ''mergetree'',
       format_settings := enrich (format_settings d) ''format''\<rparr>"

datatype load_error = FetchFailed

text \<open>\<open>loadData\<close> on the outcome of the fetch: \<open>None\<close> when the response is not ok.\<close>

definition loadData :: "dataset option \<Rightarrow> load_error + dataset" where
  "loadData resp = (case resp of None \<Rightarrow> Inl FetchFailed | Some doc \<Rightarrow> Inr (enrich_all doc))"

definition with_scope :: "string \<Rightarrow> setting \<Rightarrow> setting" where
  "with_scope scope s =
     (let obj = s\<lparr>d_scope := Some scope\<rparr>
      in if \<not> truthy (d_hayLower obj) then obj\<lparr>d_hayLower := Some (hay_of obj)\<rparr> else obj)"

definition collect :: "string list \<Rightarrow> string \<Rightarrow> setting list option \<Rightarrow> setting list" where
  "collect scopes scope arr =
     (if scope \<in> set scopes
      then (case arr of None \<Rightarrow> [] | Some xs \<Rightarrow> map (with_scope scope) xs)
      else [])"

definition combinedDataset :: "dataset option \<Rightarrow> string list \<Rightarrow> setting list" where
  "combinedDataset data scopes =
     (case data of
        None \<Rightarrow> []
      | Some d \<Rightarrow>
          collect scopes ''session'' (settings d)
          @ collect scopes ''mergetree'' (merge_tree_settings d)
          @ collect scopes ''format'' (format_settings d))"

text \<open>The records \<open>renderList\<close> shows.\<close>

definition renderList_items :: "dataset option \<Rightarrow> ui \<Rightarrow> setting list" where
  "renderList_items data u = filter (renderList_keep u) (combinedDataset data (getSelectedScopes u))"

section \<open>Facet counts\<close>

text \<open>
  \<open>Array.prototype.sort\<close> with the comparator \<open>(a, b) => a.localeCompare(b)\<close> is a stable
  sort; the collation \<open>lc\<close> belongs to the browser and is a parameter.
\<close>

fun insert_by :: "('a \<Rightarrow> 'a \<Rightarrow> int) \<Rightarrow> 'a \<Rightarrow> 'a list \<Rightarrow> 'a list" where
  "insert_by cmp x [] = [x]"
| "insert_by cmp x (y # ys) = (if cmp x y \<le> 0 then x # y # ys else y # insert_by cmp x ys)"

definition sort_by :: "('a \<Rightarrow> 'a \<Rightarrow> int) \<Rightarrow> 'a list \<Rightarrow> 'a list" where
  "sort_by cmp xs = foldr (insert_by cmp) xs []"

definition TOPIC_BLOCKLIST :: "string list" where
  "TOPIC_BLOCKLIST = [''Formats'', ''MergeTree'', ''Session'']"

text \<open>The topics one record contributes: its category, then its subsystem tags, without
  the blocked ones.\<close>

definition topic_tags :: "setting \<Rightarrow> string list" where
  "topic_tags s =
     (let cat = or_default (category s) ''Uncategorized''
      in tag_if (cat \<notin> set TOPIC_BLOCKLIST) cat
         @ filter (\<lambda>x. x \<notin> set TOPIC_BLOCKLIST) (subs_of s))"

definition bump :: "string \<Rightarrow> (string \<Rightarrow> nat) \<Rightarrow> (string \<Rightarrow> nat)" where
  "bump k c = c(k := c k + 1)"

definition scope_counts :: "ui \<Rightarrow> setting list \<Rightarrow> (string \<Rightarrow> nat)" where
  "scope_counts u allItems =
     fold (\<lambda>s c. if passFilters u s \<lparr>ignoreTier = False, ignoreTopics = False\<rparr>
                  then bump (case d_scope s of None \<Rightarrow> ''undefined'' | Some k \<Rightarrow> k) c
                  else c)
       allItems (\<lambda>_. 0)"

definition topic_counts :: "ui \<Rightarrow> setting list \<Rightarrow> (string \<Rightarrow> nat)" where
  "topic_counts u itemsInScopes =
     fold (\<lambda>s c. if \<not> passFilters u s \<lparr>ignoreTier = False, ignoreTopics = True\<rparr> then c
                  else fold bump (topic_tags s) c)
       itemsInScopes (\<lambda>_. 0)"

definition tier_counts :: "ui \<Rightarrow> setting list \<Rightarrow> (string \<Rightarrow> nat)" where
  "tier_counts u itemsInScopes =
     fold (\<lambda>s c. if \<not> passFilters u s \<lparr>ignoreTier = True, ignoreTopics = False\<rparr> then c
                  else (case version_entry s (versionSelect u) of
                          None \<Rightarrow> c
                        | Some vi \<Rightarrow> bump (effective_tier s vi) c))
       itemsInScopes (\<lambda>_. 0)"

definition topic_options :: "(string \<Rightarrow> string \<Rightarrow> int) \<Rightarrow> setting list \<Rightarrow> string list" where
  "topic_options lc itemsInScopes = sort_by lc (uniq (concat (map topic_tags itemsInScopes)))"

text \<open>The selection the rebuilt topic group gets, from the group as it was.\<close>

definition topic_selection :: "container \<Rightarrow> string list \<Rightarrow> string list" where
  "topic_selection grp topics =
     (let prevVals = getSelectedValues grp;
          prevAllCount = toggleCount grp;
          prevAll = (length prevVals = prevAllCount \<and> prevAllCount > 0);
          prevNone = (length prevVals = 0 \<and> prevAllCount > 0)
      in if prevAll then topics
         else if prevNone then []
         else (let topicSel = filter (\<lambda>x. x \<in> set prevVals) topics
               in if set_size topicSel = 0 \<and> length topics > 0 then topics else topicSel))"

definition with_count :: "(string \<Rightarrow> nat) \<Rightarrow> string \<Rightarrow> opt" where
  "with_count c v = \<lparr>opt_value = v, opt_count = Some (c v)\<rparr>"

definition updateFacetCounts :: "(string \<Rightarrow> string \<Rightarrow> int) \<Rightarrow> dataset option \<Rightarrow> ui \<Rightarrow> ui" where
  "updateFacetCounts lc data u =
     (case data of
        None \<Rightarrow> u
      | Some _ \<Rightarrow>
         (let allItems = combinedDataset data [''session'', ''mergetree'', ''format''];
              scopeCounts = scope_counts u allItems;
              scopeSel = (case getSelectedSet (scopeGroup u) of
                            None \<Rightarrow> [''session'', ''mergetree'', ''format'']
                          | Some vals \<Rightarrow> vals);
              u1 = u\<lparr>scopeGroup :=
                     buildToggleGroup (scopeGroup u)
                       (map (with_count scopeCounts) [''session'', ''mergetree'', ''format''])
                       scopeSel\<rparr>;
              currentScopes = getSelectedScopes u1;
              itemsInScopes = combinedDataset data currentScopes;
              topicCount = topic_counts u1 itemsInScopes;
              u2 = (case topicGroup u1 of
                      None \<Rightarrow> u1
                    | Some _ \<Rightarrow>
                       (let topics = topic_options lc itemsInScopes;
                            topicSel = topic_selection (topicGroup u1) topics
                        in u1\<lparr>topicGroup :=
                                buildToggleGroup (topicGroup u1)
                                  (map (with_count topicCount) topics) topicSel\<rparr>));
              tierVals = [''production'', ''beta'', ''experimental''];
              tierCount = tier_counts u2 itemsInScopes;
              tierSel = (case getSelectedSet (tierGroup u2) of
                           None \<Rightarrow> tierVals
                         | Some vals \<Rightarrow> vals)
          in u2\<lparr>tierGroup :=
                 buildToggleGroup (tierGroup u2) (map (with_count tierCount) tierVals) tierSel\<rparr>))"

text \<open>The count shown on the button for a value of a group.\<close>

definition shown_count :: "container \<Rightarrow> string \<Rightarrow> nat option" where
  "shown_count grp v =
     (case grp of
        None \<Rightarrow> None
      | Some btns \<Rightarrow> (case filter (\<lambda>b. data_value b = v) btns of
                       [] \<Rightarrow> None
                     | b # _ \<Rightarrow> count b))"

section \<open>State synchronizer\<close>

text \<open>
  The query string is the map \<open>url.searchParams\<close> presents: \<open>set\<close> stores the value of a
  key, \<open>delete\<close> removes the key, \<open>get\<close> reads it. Serialising the URL and parsing it
  again is the browser's and gives the same map.
\<close>

type_synonym search_params = "string \<rightharpoonup> string"

fun join_comma :: "string list \<Rightarrow> string" where
  "join_comma [] = []"
| "join_comma [x] = x"
| "join_comma (x # y # ys) = x @ CHR '','' # join_comma (y # ys)"

fun split_comma :: "string \<Rightarrow> string list" where
  "split_comma [] = [[]]"
| "split_comma (c # cs) =
     (if c = CHR '','' then [] # split_comma cs
      else (case split_comma cs of
              [] \<Rightarrow> [[c]]
            | w # ws \<Rightarrow> (c # w) # ws))"

definition setList :: "string \<Rightarrow> string list \<Rightarrow> search_params \<Rightarrow> search_params" where
  "setList k arr sp = (if arr \<noteq> [] then sp(k \<mapsto> join_comma arr) else sp(k := None))"

definition updateUrlFromState :: "ui \<Rightarrow> search_params \<Rightarrow> search_params" where
  "updateUrlFromState u sp =
     (let q = searchInput u;
          sp1 = (if q \<noteq> [] \<and> trim q \<noteq> [] then sp(''q'' \<mapsto> trim q) else sp(''q'' := None));
          v = versionSelect u;
          sp2 = (if v \<noteq> [] then sp1(''v'' \<mapsto> v) else sp1(''v'' := None));
          sp3 = setList ''scopes'' (getSelectedValues (scopeGroup u)) sp2;
          sp4 = setList ''topics'' (getSelectedValues (topicGroup u)) sp3;
          sp5 = setList ''tiers'' (getSelectedValues (tierGroup u)) sp4;
          sp6 = setList ''special'' (getSelectedValues (specialGroup u)) sp5
      in if changedOnly u then sp6(''changed'' \<mapsto> ''1'') else sp6(''changed'' := None))"

record url_state =
  out_q :: string
  out_v :: string
  out_scopes :: "string list option"
  out_topics :: "string list option"
  out_tiers :: "string list option"
  out_special :: "string list option"
  out_changed :: bool

definition getList :: "search_params \<Rightarrow> string \<Rightarrow> string list option" where
  "getList sp k =
     (case sp k of
        None \<Rightarrow> None
      | Some v \<Rightarrow> if v = [] then None
                  else Some (filter (\<lambda>x. x \<noteq> []) (map trim (split_comma v))))"

definition parseStateFromUrl :: "search_params \<Rightarrow> url_state" where
  "parseStateFromUrl sp =
     \<lparr>out_q = or_default (sp ''q'') [],
      out_v = or_default (sp ''v'') [],
      out_scopes = getList sp ''scopes'',
      out_topics = getList sp ''topics'',
      out_tiers = getList sp ''tiers'',
      out_special = getList sp ''special'',
      out_changed = (sp ''changed'' = Some ''1'')\<rparr>"

section \<open>A small dataset\<close>

text \<open>
  One session record, \<open>max_threads\<close>, of category Performance, present in version 25.8
  with tier production, and the controls of a freshly rendered page: every scope, topic
  and tier selected, no special flag, no query.
\<close>

definition ex_max_threads :: setting where
  "ex_max_threads =
     \<lparr>name = ''max_threads'',
      description = Some ''The maximum number of query processing threads.'',
      category = Some ''Performance'',
      flags = None,
      cloud_only = False,
      versions = Some [''25.8'' \<mapsto> \<lparr>tier = Some ''production'', changed_from_prev = False\<rparr>],
      mentions = None,
      subsystems = None,
      d_scope = None,
      d_hayLower = None,
      d_subsystems = None\<rparr>"

definition ex_doc :: dataset where
  "ex_doc =
     \<lparr>versions_list = [''25.8''],
      settings = Some [ex_max_threads],
      merge_tree_settings = Some [],
      format_settings = Some []\<rparr>"

definition pill :: "string \<Rightarrow> bool \<Rightarrow> toggle" where
  "pill v sel = \<lparr>data_value = v, selected = sel, count = None\<rparr>"

definition ex_ui :: ui where
  "ex_ui =
     \<lparr>searchInput = [],
      versionSelect = ''25.8'',
      changedOnly = False,
      scopeGroup = Some [pill ''session'' True, pill ''mergetree'' True, pill ''format'' True],
      topicGroup = Some [pill ''Performance'' True, pill ''Resource Control'' True],
      tierGroup = Some [pill ''production'' True, pill ''beta'' True, pill ''experimental'' True],
      specialGroup = Some [pill ''cloud'' False, pill ''refs'' False]\<rparr>"

text \<open>A collation to run the examples with: the order of the character codes.\<close>

fun code_compare :: "string \<Rightarrow> string \<Rightarrow> int" where
  "code_compare [] [] = 0"
| "code_compare [] (b # bs) = - 1"
| "code_compare (a # as) [] = 1"
| "code_compare (a # as) (b # bs) =
     (if (of_char a :: nat) < of_char b then - 1
      else if (of_char b :: nat) < of_char a then 1
      else code_compare as bs)"

text \<open>The same page with one of its two topics deselected.\<close>

definition ex_partial :: ui where
  "ex_partial =
     ex_ui\<lparr>topicGroup := Some [pill ''Performance'' True, pill ''Resource Control'' False]\<rparr>"

section \<open>Words and phrases\<close>




section \<open>Round trip through the URL\<close>

text \<open>
  The round-trip property as the specification words it: for a state of the controls
  whose four facet selections are all non-empty, the state parsed back from the URL has
  the same scope, topic, tier and special sets, the same free-text query, the same
  version and the same changed-only flag.
\<close>

definition facets_nonempty :: "ui \<Rightarrow> bool" where
  "facets_nonempty u =
     (getSelectedValues (scopeGroup u) \<noteq> [] \<and> getSelectedValues (topicGroup u) \<noteq> []
      \<and> getSelectedValues (tierGroup u) \<noteq> [] \<and> getSelectedValues (specialGroup u) \<noteq> [])"

definition list_set :: "string list option \<Rightarrow> string set" where
  "list_set xs = (case xs of None \<Rightarrow> {} | Some ys \<Rightarrow> set ys)"

definition same_filter_state :: "url_state \<Rightarrow> ui \<Rightarrow> bool" where
  "same_filter_state out u =
     (list_set (out_scopes out) = set (getSelectedValues (scopeGroup u))
      \<and> list_set (out_topics out) = set (getSelectedValues (topicGroup u))
      \<and> list_set (out_tiers out) = set (getSelectedValues (tierGroup u))
      \<and> list_set (out_special out) = set (getSelectedValues (specialGroup u))
      \<and> out_q out = searchInput u
      \<and> out_v out = versionSelect u
      \<and> out_changed out = changedOnly u)"

text \<open>A value the comma-joined list carries unchanged: not empty, no comma, no white
  space at its ends.\<close>

definition url_safe :: "string \<Rightarrow> bool" where
  "url_safe x = (x \<noteq> [] \<and> CHR '','' \<notin> set x \<and> trim x = x)"

definition selection_of :: "container \<Rightarrow> string list option" where
  "selection_of c = (if getSelectedValues c = [] then None else Some (getSelectedValues c))"

text \<open>Two pages: one whose only topic has a comma in its name, selected, with the
  cloud-only flag on; and the first page with a query typed with spaces around it.\<close>

definition ex_comma :: ui where
  "ex_comma =
     ex_ui\<lparr>topicGroup := Some [pill ''Query, Plan'' True],
           specialGroup := Some [pill ''cloud'' True, pill ''refs'' False]\<rparr>"

definition ex_padded :: ui where
  "ex_padded =
     ex_ui\<lparr>searchInput := '' max '',
           specialGroup := Some [pill ''cloud'' True, pill ''refs'' False]\<rparr>"

text \<open>The first page with the cloud-only flag on, and a record whose category is also
  one of its inferred tags.\<close>

definition ex_cloud :: ui where
  "ex_cloud = ex_ui\<lparr>specialGroup := Some [pill ''cloud'' True, pill ''refs'' False]\<rparr>"

definition ex_password :: setting where
  "ex_password =
     ex_max_threads\<lparr>name := ''password_check'', description := None,
                    category := Some ''Security''\<rparr>"

section \<open>Properties\<close>

lemma str_includes_sublist: "str_includes hay t \<longleftrightarrow> sublist t hay"
  by (induction hay) (auto simp: sublist_Cons_right)

text \<open>
  C10: parseTierFromFlags is total and its result is always one of production, beta and
  experimental. A missing or empty flags value gives production; a flags string whose
  lower-cased text contains experimental gives experimental, also when it contains beta;
  otherwise one that contains beta gives beta; every other string gives production.
\<close>

theorem parseTierFromFlags_cases:
  "parseTierFromFlags fl \<in> {''production'', ''beta'', ''experimental''}
   \<and> parseTierFromFlags None = ''production''
   \<and> parseTierFromFlags (Some []) = ''production''
   \<and> (sublist ''experimental'' (toLowerCase s) \<longrightarrow>
        parseTierFromFlags (Some s) = ''experimental'')
   \<and> (\<not> sublist ''experimental'' (toLowerCase s) \<and> sublist ''beta'' (toLowerCase s) \<longrightarrow>
        parseTierFromFlags (Some s) = ''beta'')
   \<and> (\<not> sublist ''experimental'' (toLowerCase s) \<and> \<not> sublist ''beta'' (toLowerCase s) \<longrightarrow>
        parseTierFromFlags (Some s) = ''production'')"
proof -
  have range: "parseTierFromFlags fl \<in> {''production'', ''beta'', ''experimental''}"
    by (cases fl) (simp_all add: Let_def)
  have nonempty: "sublist ''experimental'' (toLowerCase s) \<Longrightarrow> s \<noteq> []"
    by (auto simp: toLowerCase_def)
  have nonempty': "sublist ''beta'' (toLowerCase s) \<Longrightarrow> s \<noteq> []"
    by (auto simp: toLowerCase_def)
  show ?thesis
    using range nonempty nonempty'
    by (auto simp: Let_def str_includes_sublist)
qed

theorem parseTierFromFlags_cases_witness:
  "sublist ''experimental'' (toLowerCase ''Beta, EXPERIMENTAL'')
   \<and> parseTierFromFlags (Some ''Beta, EXPERIMENTAL'') = ''experimental''
   \<and> \<not> sublist ''experimental'' (toLowerCase ''IMPORTANT | Beta'')
   \<and> sublist ''beta'' (toLowerCase ''IMPORTANT | Beta'')
   \<and> parseTierFromFlags (Some ''IMPORTANT | Beta'') = ''beta''
   \<and> \<not> sublist ''beta'' (toLowerCase ''obsolete'')
   \<and> parseTierFromFlags (Some ''obsolete'') = ''production''"
proof -
  have e: "sublist ''experimental'' (toLowerCase ''Beta, EXPERIMENTAL'')"
    unfolding str_includes_sublist [symmetric] by (simp add: toLowerCase_def lower_char_def)
  have ne: "\<not> sublist ''experimental'' (toLowerCase ''IMPORTANT | Beta'')"
    unfolding str_includes_sublist [symmetric] by (simp add: toLowerCase_def lower_char_def)
  have b: "sublist ''beta'' (toLowerCase ''IMPORTANT | Beta'')"
    unfolding str_includes_sublist [symmetric] by (simp add: toLowerCase_def lower_char_def)
  have ne': "\<not> sublist ''experimental'' (toLowerCase ''obsolete'')"
    unfolding str_includes_sublist [symmetric] by (simp add: toLowerCase_def lower_char_def)
  have nb: "\<not> sublist ''beta'' (toLowerCase ''obsolete'')"
    unfolding str_includes_sublist [symmetric] by (simp add: toLowerCase_def lower_char_def)
  from e ne b ne' nb
    parseTierFromFlags_cases [of None "''Beta, EXPERIMENTAL''"]
    parseTierFromFlags_cases [of None "''IMPORTANT | Beta''"]
    parseTierFromFlags_cases [of None "''obsolete''"]
  show ?thesis by blast
qed




lemma getSelectedValues_none [simp]: "getSelectedValues (setAllSelected c False) = []"
  by (cases c) (simp_all add: getSelectedValues_def setAllSelected_def)




lemma filter_cleared: "filter selected (map (\<lambda>b. b\<lparr>selected := False\<rparr>) bs) = []"
  by (induction bs) simp_all

text \<open>
  C9: a click with Alt, Meta or Shift held on a button of a toggle group, whatever was
  selected before, leaves exactly one button selected, the clicked one; the options of the
  group stay as they were.
\<close>

theorem solo_click:
  assumes "i < length btns" and "altKey ev \<or> metaKey ev \<or> shiftKey ev"
  shows "filter selected (click ev i btns) = [(btns ! i)\<lparr>selected := True\<rparr>]
         \<and> getSelectedValues (Some (click ev i btns)) = [data_value (btns ! i)]
         \<and> length (filter selected (click ev i btns)) = 1
         \<and> map data_value (click ev i btns) = map data_value btns"
proof -
  let ?cleared = "map (\<lambda>b. b\<lparr>selected := False\<rparr>) btns"
  have c: "click ev i btns = ?cleared[i := (?cleared ! i)\<lparr>selected := True\<rparr>]"
    using assms by (simp add: click_def Let_def)
  have i: "i < length ?cleared" using assms by simp
  have split: "?cleared[i := (?cleared ! i)\<lparr>selected := True\<rparr>] =
      take i ?cleared @ (?cleared ! i)\<lparr>selected := True\<rparr> # drop (Suc i) ?cleared"
    using i by (rule upd_conv_take_nth_drop)
  have t: "filter selected (take i ?cleared) = []"
    by (simp add: take_map filter_cleared)
  have d: "filter selected (drop (Suc i) ?cleared) = []"
    by (simp add: drop_map filter_cleared)
  have f: "filter selected (click ev i btns) = [(btns ! i)\<lparr>selected := True\<rparr>]"
    using assms(1) by (simp only: c split filter_append filter.simps t d) simp
  have m: "map data_value (click ev i btns) = map data_value btns"
    using assms(1) unfolding c by (simp add: map_update list_eq_iff_nth_eq nth_list_update)
  from f m show ?thesis by (simp add: getSelectedValues_def)
qed

theorem solo_click_witness:
  "filter selected
     (click \<lparr>altKey = False, metaKey = False, shiftKey = True\<rparr> 1
        [pill ''production'' True, pill ''beta'' True, pill ''experimental'' True])
   = [pill ''beta'' True]"
  using solo_click [of 1 "[pill ''production'' True, pill ''beta'' True, pill ''experimental'' True]"
      "\<lparr>altKey = False, metaKey = False, shiftKey = True\<rparr>"]
  by (simp add: pill_def)

lemma enrich_one_idem: "enrich_one scope (enrich_one scope s) = enrich_one scope s"
  by (simp add: enrich_one_def hay_of_def)

lemma enrich_idem: "enrich (enrich arr scope) scope = enrich arr scope"
  by (cases arr) (simp_all add: enrich_def enrich_one_idem)

text \<open>
  C8: attaching the derived fields is idempotent. Enriching an enriched record again gives
  the same record: the scope tag, the lower-case haystack and the inferred subsystem tags
  are computed anew from the name, the description and the scope, not added to what is
  there. So a dataset enriched twice is the dataset enriched once, and every state of the
  controls shows the same list of records, in the same order, for both.
\<close>

theorem enrich_idempotent:
  "enrich_one scope (enrich_one scope s) = enrich_one scope s
   \<and> d_scope (enrich_one scope (enrich_one scope s)) = d_scope (enrich_one scope s)
   \<and> d_hayLower (enrich_one scope (enrich_one scope s)) = Some (hay_of s)
   \<and> d_subsystems (enrich_one scope (enrich_one scope s)) =
       Some (inferSubsystems (name s) (or_default (description s) []) scope)
   \<and> enrich_all (enrich_all doc) = enrich_all doc
   \<and> loadData (Some doc) = Inr (enrich_all doc)
   \<and> loadData (Some (enrich_all doc)) = loadData (Some doc)
   \<and> renderList_items (Some (enrich_all (enrich_all doc))) u =
       renderList_items (Some (enrich_all doc)) u"
proof -
  have a: "enrich_all (enrich_all doc) = enrich_all doc"
    by (simp add: enrich_all_def enrich_idem)
  show ?thesis
    by (simp add: a enrich_one_idem loadData_def) (simp add: enrich_one_def hay_of_def)
qed

lemma getSelectedValues_all: "getSelectedValues (setAllSelected c True) = (case c of None \<Rightarrow> [] | Some g \<Rightarrow> map data_value g)"
  by (cases c) (simp_all add: getSelectedValues_def setAllSelected_def comp_def)

lemma toggleCount_setAll [simp]: "toggleCount (setAllSelected c b) = toggleCount c"
  by (cases c) (simp_all add: toggleCount_def setAllSelected_def)

lemma applyTopicFilter_all:
  assumes "distinct (map data_value (case topicGroup u of None \<Rightarrow> [] | Some g \<Rightarrow> g))"
  shows "\<not> applyTopicFilter (u\<lparr>topicGroup := setAllSelected (topicGroup u) True\<rparr>)"
proof (cases "topicGroup u")
  case None
  then show ?thesis
    by (simp add: applyTopicFilter_def Let_def getSelectedValues_all toggleCount_def set_size_def)
next
  case (Some g)
  with assms have "length (remdups (map data_value g)) = length g"
    by (simp add: distinct_remdups_id)
  with Some show ?thesis
    by (simp add: applyTopicFilter_def Let_def getSelectedValues_all set_size_def)
       (simp add: toggleCount_def)
qed

lemma applyTopicFilter_none:
  "\<not> applyTopicFilter (u\<lparr>topicGroup := setAllSelected (topicGroup u) False\<rparr>)"
  by (simp add: applyTopicFilter_def Let_def set_size_def)

lemma keep_unrestricted:
  "\<not> applyTopicFilter u \<Longrightarrow>
   renderList_keep u s =
     (case version_entry s (versionSelect u) of
        None \<Rightarrow> False
      | Some vi \<Rightarrow>
          \<not> (getSelectedValues (tierGroup u) \<noteq> []
               \<and> effective_tier s vi \<notin> set (getSelectedValues (tierGroup u)))
          \<and> \<not> (changedOnly u \<and> \<not> changed_from_prev vi)
          \<and> \<not> (''cloud'' \<in> set (getSelectedValues (specialGroup u)) \<and> \<not> cloud_only s)
          \<and> \<not> (''refs'' \<in> set (getSelectedValues (specialGroup u))
               \<and> mention_count s docs = 0 \<and> mention_count s blogs = 0)
          \<and> (getSearchTokens u = [] \<or> matchesQuery (d_hayLower s) (getSearchTokens u)))"
  by (auto simp: renderList_keep_def Let_def split: option.splits)

lemma selected_subset: "set (getSelectedValues (Some g)) \<subseteq> set (map data_value g)"
  by (auto simp: getSelectedValues_def)

text \<open>
  C3: when the options of the topic group are distinct (every group the application builds
  is), selecting every topic shows exactly the same list of records as selecting none,
  for every dataset and every state of the other controls. The topic restriction applies
  only when the selected topics are not empty and are a proper part of the options.
\<close>

theorem all_topics_same_as_none:
  assumes "distinct (map data_value (case topicGroup u of None \<Rightarrow> [] | Some g \<Rightarrow> g))"
  shows "renderList_items data (u\<lparr>topicGroup := setAllSelected (topicGroup u) True\<rparr>)
           = renderList_items data (u\<lparr>topicGroup := setAllSelected (topicGroup u) False\<rparr>)
         \<and> getSelectedValues (setAllSelected (topicGroup u) True)
             = map data_value (case topicGroup u of None \<Rightarrow> [] | Some g \<Rightarrow> g)
         \<and> getSelectedValues (setAllSelected (topicGroup u) False) = []
         \<and> (applyTopicFilter u \<longleftrightarrow>
              set (getSelectedValues (topicGroup u)) \<noteq> {}
              \<and> set (getSelectedValues (topicGroup u))
                  \<subset> set (map data_value (case topicGroup u of None \<Rightarrow> [] | Some g \<Rightarrow> g)))"
proof -
  let ?all = "u\<lparr>topicGroup := setAllSelected (topicGroup u) True\<rparr>"
  let ?none = "u\<lparr>topicGroup := setAllSelected (topicGroup u) False\<rparr>"
  have "renderList_keep ?all s = renderList_keep ?none s" for s
    using applyTopicFilter_all [OF assms] applyTopicFilter_none [of u]
    by (simp add: keep_unrestricted getSearchTokens_def split: option.splits)
  then have "renderList_keep ?all = renderList_keep ?none"
    by (simp add: fun_eq_iff)
  then have items: "renderList_items data ?all = renderList_items data ?none"
    by (simp add: renderList_items_def getSelectedScopes_def)
  have vals: "getSelectedValues (setAllSelected (topicGroup u) True)
             = map data_value (case topicGroup u of None \<Rightarrow> [] | Some g \<Rightarrow> g)"
    by (simp add: getSelectedValues_all split: option.splits)
  have atf: "applyTopicFilter u \<longleftrightarrow>
              set (getSelectedValues (topicGroup u)) \<noteq> {}
              \<and> set (getSelectedValues (topicGroup u))
                  \<subset> set (map data_value (case topicGroup u of None \<Rightarrow> [] | Some g \<Rightarrow> g))"
  proof (cases "topicGroup u")
    case None
    then show ?thesis
      by (simp add: applyTopicFilter_def Let_def getSelectedValues_def toggleCount_def set_size_def)
  next
    case (Some g)
    let ?sel = "getSelectedValues (Some g)"
    let ?vals = "map data_value g"
    from assms Some have d: "distinct ?vals" by simp
    have sub: "set ?sel \<subseteq> set ?vals" by (rule selected_subset)
    have card_sel: "length (remdups ?sel) = card (set ?sel)"
      by (simp add: length_remdups_card_conv)
    have card_all: "length g = card (set ?vals)"
      using distinct_card [OF d] by simp
    have "card (set ?sel) < card (set ?vals) \<longleftrightarrow> set ?sel \<subset> set ?vals"
    proof
      assume "card (set ?sel) < card (set ?vals)"
      then have "set ?sel \<noteq> set ?vals" by auto
      with sub show "set ?sel \<subset> set ?vals" by blast
    next
      assume "set ?sel \<subset> set ?vals"
      then show "card (set ?sel) < card (set ?vals)"
        by (simp add: psubset_card_mono)
    qed
    with Some card_sel card_all show ?thesis
      by (simp add: applyTopicFilter_def Let_def toggleCount_def set_size_def)
  qed
  from items vals atf show ?thesis by simp
qed

theorem all_topics_same_as_none_witness:
  "distinct (map data_value (case topicGroup ex_ui of None \<Rightarrow> [] | Some g \<Rightarrow> g))
   \<and> renderList_items (Some (enrich_all ex_doc))
        (ex_ui\<lparr>topicGroup := setAllSelected (topicGroup ex_ui) True\<rparr>)
      = renderList_items (Some (enrich_all ex_doc))
        (ex_ui\<lparr>topicGroup := setAllSelected (topicGroup ex_ui) False\<rparr>)"
proof -
  have d: "distinct (map data_value (case topicGroup ex_ui of None \<Rightarrow> [] | Some g \<Rightarrow> g))"
    by (simp add: ex_ui_def pill_def)
  from d all_topics_same_as_none [OF d, of "Some (enrich_all ex_doc)"] show ?thesis by simp
qed

lemma set_uniq [simp]: "set (uniq xs) = set xs"
  by (simp add: uniq_def)

lemma distinct_uniq [simp]: "distinct (uniq xs)"
  by (simp add: uniq_def)

lemma set_insert_by [simp]: "set (insert_by cmp x ys) = insert x (set ys)"
  by (induction ys) auto

lemma distinct_insert_by [simp]: "distinct (insert_by cmp x ys) \<longleftrightarrow> x \<notin> set ys \<and> distinct ys"
  by (induction ys) auto

lemma set_sort_by [simp]: "set (sort_by cmp xs) = set xs"
  by (induction xs) (simp_all add: sort_by_def)

lemma distinct_sort_by [simp]: "distinct (sort_by cmp xs) \<longleftrightarrow> distinct xs"
proof (induction xs)
  case Nil
  then show ?case by (simp add: sort_by_def)
next
  case (Cons x xs)
  have "sort_by cmp (x # xs) = insert_by cmp x (sort_by cmp xs)"
    by (simp add: sort_by_def)
  with Cons show ?case by simp
qed

lemma distinct_topic_options: "distinct (topic_options lc items)"
  by (simp add: topic_options_def)

lemma build_values:
  "buildToggleGroup (Some g) (map (with_count c) topics) sel = Some g' \<Longrightarrow>
   map data_value g' = topics \<and> getSelectedValues (Some g') = filter (\<lambda>x. x \<in> set sel) topics"
  by (auto simp: buildToggleGroup_def with_count_def getSelectedValues_def comp_def filter_map)

lemma topicGroup_updateFacetCounts:
  assumes "topicGroup u = Some g"
  shows "\<exists>c topics. distinct topics \<and>
           topicGroup (updateFacetCounts lc (Some d) u) =
             buildToggleGroup (Some g) (map (with_count c) topics) (topic_selection (Some g) topics)"
  using assms distinct_topic_options
  by (auto simp: updateFacetCounts_def Let_def)

lemma all_selected_length:
  "length (filter P xs) = length xs \<longleftrightarrow> (\<forall>x\<in>set xs. P x)"
proof -
  have "length (filter P xs) = length xs \<longleftrightarrow> length (filter (\<lambda>x. \<not> P x) xs) = 0"
    using sum_length_filter_compl [of P xs] by arith
  then show ?thesis by (simp add: filter_empty_conv)
qed

lemma all_selected_sets:
  assumes "distinct (map data_value g)"
  shows "set (getSelectedValues (Some g)) = set (map data_value g) \<longleftrightarrow> (\<forall>b\<in>set g. selected b)"
proof
  assume eq: "set (getSelectedValues (Some g)) = set (map data_value g)"
  show "\<forall>b\<in>set g. selected b"
  proof
    fix b assume b: "b \<in> set g"
    then have "data_value b \<in> set (getSelectedValues (Some g))"
      using eq by simp
    then obtain b' where b': "b' \<in> set g" "selected b'" "data_value b' = data_value b"
      by (auto simp: getSelectedValues_def)
    from assms have "inj_on data_value (set g)"
      by (simp add: distinct_map)
    with b b' have "b' = b" by (auto dest: inj_onD)
    with b' show "selected b" by simp
  qed
next
  assume "\<forall>b\<in>set g. selected b"
  then have "filter selected g = g" by simp
  then show "set (getSelectedValues (Some g)) = set (map data_value g)"
    by (simp add: getSelectedValues_def)
qed

lemma topic_selection_set:
  assumes "distinct (map data_value g)"
  shows "set (filter (\<lambda>x. x \<in> set (topic_selection (Some g) topics)) topics) =
     (let P = set (map data_value g); S = set (getSelectedValues (Some g)); T = set topics
      in if S = P then T
         else if S = {} then {}
         else if S \<inter> T = {} then T else S \<inter> T)"
proof -
  let ?sel = "getSelectedValues (Some g)"
  have len: "length ?sel = length (filter selected g)"
    by (simp add: getSelectedValues_def)
  have allsel: "(length ?sel = length g) = (set ?sel = set (map data_value g))"
    unfolding len all_selected_length all_selected_sets [OF assms] ..
  have inter: "set (filter (\<lambda>x. x \<in> set ?sel) topics) = set ?sel \<inter> set topics"
    by auto
  have empty_iff: "filter (\<lambda>x. x \<in> set ?sel) topics = [] \<longleftrightarrow> set ?sel \<inter> set topics = {}"
    by (auto simp: filter_empty_conv)
  show ?thesis
  proof (cases "length ?sel = length g")
    case True
    note all = this
    show ?thesis
    proof (cases "g = []")
      case True
      then have "?sel = []" by (simp add: getSelectedValues_def)
      with True show ?thesis
        by (auto simp: topic_selection_def Let_def toggleCount_def set_size_def)
    next
      case False
      with all allsel show ?thesis
        by (auto simp: topic_selection_def Let_def toggleCount_def)
    qed
  next
    case False
    note notall = this
    then have ne: "set ?sel \<noteq> set (map data_value g)" using allsel by simp
    have g: "g \<noteq> []" using notall by (auto simp: getSelectedValues_def)
    show ?thesis
    proof (cases "?sel = []")
      case True
      with notall g ne show ?thesis
        by (simp add: topic_selection_def Let_def toggleCount_def)
    next
      case False
      then have s: "set ?sel \<noteq> {}" by simp
      show ?thesis
      proof (cases "set ?sel \<inter> set topics = {}")
        case True
        then have f: "filter (\<lambda>x. x \<in> set ?sel) topics = []" using empty_iff by simp
        from notall False ne s True f show ?thesis
          by (cases topics) (simp_all add: topic_selection_def Let_def toggleCount_def set_size_def)
      next
        case False
        then have f: "filter (\<lambda>x. x \<in> set ?sel) topics \<noteq> []" using empty_iff by simp
        have idem: "filter (\<lambda>x. x \<in> set (filter (\<lambda>x. x \<in> set ?sel) topics)) topics
                    = filter (\<lambda>x. x \<in> set ?sel) topics"
          by (rule filter_cong) auto
        from notall \<open>?sel \<noteq> []\<close> ne s False f show ?thesis
          by (auto simp: topic_selection_def Let_def toggleCount_def set_size_def idem)
      qed
    qed
  qed
qed

text \<open>
  C6: when \<open>updateFacetCounts\<close> rebuilds the topic group, the new selection follows from
  the previous one. If the previous selection was the whole previous option set, the new
  selection is the whole new option set; otherwise, if the previous selection was empty,
  the new one is empty; otherwise it is the previous selection intersected with the new
  option set, and the whole new option set when that intersection is empty. The options
  of a group are distinct, before and after.
\<close>

theorem topic_selection_policy:
  assumes "topicGroup u = Some g" and "distinct (map data_value g)"
  shows "\<exists>g'. topicGroup (updateFacetCounts lc (Some d) u) = Some g'
          \<and> distinct (map data_value g')
          \<and> set (getSelectedValues (Some g')) =
              (let P = set (map data_value g);
                   S = set (getSelectedValues (Some g));
                   T = set (map data_value g')
               in if S = P then T
                  else if S = {} then {}
                  else if S \<inter> T = {} then T else S \<inter> T)"
proof -
  from topicGroup_updateFacetCounts [OF assms(1), of lc d]
  obtain c topics where dt: "distinct topics"
    and tg: "topicGroup (updateFacetCounts lc (Some d) u) =
             buildToggleGroup (Some g) (map (with_count c) topics) (topic_selection (Some g) topics)"
    by blast
  obtain g' where g': "buildToggleGroup (Some g) (map (with_count c) topics)
      (topic_selection (Some g) topics) = Some g'"
    by (simp add: buildToggleGroup_def)
  from build_values [OF g'] have vals: "map data_value g' = topics"
    and sel: "getSelectedValues (Some g') =
        filter (\<lambda>x. x \<in> set (topic_selection (Some g) topics)) topics"
    by simp_all
  have a: "topicGroup (updateFacetCounts lc (Some d) u) = Some g'"
    using tg g' by simp
  have b: "distinct (map data_value g')"
    by (simp only: vals dt)
  have c: "set (getSelectedValues (Some g')) =
              (let P = set (map data_value g);
                   S = set (getSelectedValues (Some g));
                   T = set (map data_value g')
               in if S = P then T
                  else if S = {} then {}
                  else if S \<inter> T = {} then T else S \<inter> T)"
    unfolding sel vals by (rule topic_selection_set [OF assms(2)])
  from a b c show ?thesis by blast
qed


theorem topic_selection_policy_witness:
  "topicGroup ex_partial = Some [pill ''Performance'' True, pill ''Resource Control'' False]
   \<and> distinct (map data_value [pill ''Performance'' True, pill ''Resource Control'' False])
   \<and> topicGroup (updateFacetCounts code_compare (Some (enrich_all ex_doc)) ex_partial)
       = Some [\<lparr>data_value = ''Performance'', selected = True, count = Some 1\<rparr>,
               \<lparr>data_value = ''Resource Control'', selected = False, count = Some 1\<rparr>]
   \<and> (\<exists>g'. topicGroup (updateFacetCounts code_compare (Some (enrich_all ex_doc)) ex_partial)
             = Some g'
          \<and> distinct (map data_value g')
          \<and> set (getSelectedValues (Some g')) =
              (let P = set (map data_value
                         [pill ''Performance'' True, pill ''Resource Control'' False]);
                   S = set (getSelectedValues
                         (Some [pill ''Performance'' True, pill ''Resource Control'' False]));
                   T = set (map data_value g')
               in if S = P then T
                  else if S = {} then {}
                  else if S \<inter> T = {} then T else S \<inter> T))"
proof -
  have g: "topicGroup ex_partial
      = Some [pill ''Performance'' True, pill ''Resource Control'' False]"
    by (simp add: ex_partial_def)
  have d: "distinct (map data_value [pill ''Performance'' True, pill ''Resource Control'' False])"
    by (simp add: pill_def)
  have v: "topicGroup (updateFacetCounts code_compare (Some (enrich_all ex_doc)) ex_partial)
       = Some [\<lparr>data_value = ''Performance'', selected = True, count = Some 1\<rparr>,
               \<lparr>data_value = ''Resource Control'', selected = False, count = Some 1\<rparr>]"
    by code_simp
  from g d v topic_selection_policy [OF g d, of code_compare "enrich_all ex_doc"]
  show ?thesis by blast
qed

lemma lower_char_idem [simp]: "lower_char (lower_char c) = lower_char c"
  by (simp add: lower_char_def)

lemma toLowerCase_idem [simp]: "toLowerCase (toLowerCase s) = toLowerCase s"
  by (simp add: toLowerCase_def)





















lemma split_comma_nonempty [simp]: "split_comma s \<noteq> []"
  by (induction s) (auto split: list.splits)

lemma split_comma_plain: "CHR '','' \<notin> set x \<Longrightarrow> split_comma x = [x]"
  by (induction x) auto

lemma split_comma_append:
  "CHR '','' \<notin> set x \<Longrightarrow> split_comma (x @ CHR '','' # r) = x # split_comma r"
  by (induction x) auto

lemma split_join:
  "xs \<noteq> [] \<Longrightarrow> \<forall>x\<in>set xs. CHR '','' \<notin> set x \<Longrightarrow> split_comma (join_comma xs) = xs"
proof (induction xs rule: join_comma.induct)
  case 1
  then show ?case by simp
next
  case (2 x)
  then show ?case by (simp add: split_comma_plain)
next
  case (3 x y ys)
  then show ?case by (simp add: split_comma_append)
qed

lemma join_nonempty: "xs \<noteq> [] \<Longrightarrow> \<forall>x\<in>set xs. x \<noteq> [] \<Longrightarrow> join_comma xs \<noteq> []"
  by (induction xs rule: join_comma.induct) auto

lemma getList_setList:
  assumes "\<forall>x\<in>set xs. url_safe x"
  shows "getList (setList k xs sp) k = (if xs = [] then None else Some xs)"
proof (cases "xs = []")
  case True
  then show ?thesis by (simp add: getList_def setList_def)
next
  case False
  from assms have c: "\<forall>x\<in>set xs. CHR '','' \<notin> set x" and n: "\<forall>x\<in>set xs. x \<noteq> []"
    and t: "\<forall>x\<in>set xs. trim x = x"
    by (auto simp: url_safe_def)
  have "map trim xs = xs" using t by (simp add: map_idI)
  moreover have "filter (\<lambda>x. x \<noteq> []) xs = xs" using n by simp
  ultimately show ?thesis
    using False join_nonempty [OF False n] split_join [OF False c]
    by (simp add: getList_def setList_def)
qed

lemma getList_other: "k' \<noteq> k \<Longrightarrow> getList (setList k' xs sp) k = getList sp k"
  by (simp add: getList_def setList_def)

lemma getList_upd: "k' \<noteq> k \<Longrightarrow> getList (sp(k' := v)) k = getList sp k"
  by (simp add: getList_def)

lemma setList_get: "k' \<noteq> k \<Longrightarrow> (setList k' xs sp) k = sp k"
  by (simp add: setList_def)

text \<open>
  C4, as the code has it: when every selected value of the four groups is non-empty, has
  no comma and has no white space at its ends (the values of the scope, tier and special
  groups always are so), writing the state of the controls into the URL and parsing the
  URL back gives the selected values of each group, in order (no list for a group with
  nothing selected), the version, the changed-only flag, and the query with the white
  space around it removed. With a query that has no white space around it, the parsed
  state is the same state in the sense of the specification.
\<close>

theorem url_round_trip:
  assumes "\<forall>x\<in>set (getSelectedValues (scopeGroup u) @ getSelectedValues (topicGroup u)
                    @ getSelectedValues (tierGroup u) @ getSelectedValues (specialGroup u)).
             url_safe x"
  shows "parseStateFromUrl (updateUrlFromState u sp) =
           \<lparr>out_q = trim (searchInput u),
            out_v = versionSelect u,
            out_scopes = selection_of (scopeGroup u),
            out_topics = selection_of (topicGroup u),
            out_tiers = selection_of (tierGroup u),
            out_special = selection_of (specialGroup u),
            out_changed = changedOnly u\<rparr>
         \<and> (trim (searchInput u) = searchInput u \<longrightarrow>
              same_filter_state (parseStateFromUrl (updateUrlFromState u sp)) u)"
proof -
  from assms have s: "\<forall>x\<in>set (getSelectedValues (scopeGroup u)). url_safe x"
    and t: "\<forall>x\<in>set (getSelectedValues (topicGroup u)). url_safe x"
    and r: "\<forall>x\<in>set (getSelectedValues (tierGroup u)). url_safe x"
    and p: "\<forall>x\<in>set (getSelectedValues (specialGroup u)). url_safe x"
    by auto
  have q: "or_default (updateUrlFromState u sp ''q'') [] = trim (searchInput u)"
    by (auto simp: updateUrlFromState_def Let_def setList_get or_default_def trim_def)
  have v: "or_default (updateUrlFromState u sp ''v'') [] = versionSelect u"
    by (auto simp: updateUrlFromState_def Let_def setList_get or_default_def)
  have c: "(updateUrlFromState u sp ''changed'' = Some ''1'') = changedOnly u"
    by (auto simp: updateUrlFromState_def Let_def)
  have sc: "getList (updateUrlFromState u sp) ''scopes'' = selection_of (scopeGroup u)"
    using s by (simp add: updateUrlFromState_def Let_def getList_upd getList_other
        getList_setList selection_of_def)
  have to: "getList (updateUrlFromState u sp) ''topics'' = selection_of (topicGroup u)"
    using t by (simp add: updateUrlFromState_def Let_def getList_upd getList_other
        getList_setList selection_of_def)
  have ti: "getList (updateUrlFromState u sp) ''tiers'' = selection_of (tierGroup u)"
    using r by (simp add: updateUrlFromState_def Let_def getList_upd getList_other
        getList_setList selection_of_def)
  have sp: "getList (updateUrlFromState u sp) ''special'' = selection_of (specialGroup u)"
    using p by (simp add: updateUrlFromState_def Let_def getList_upd getList_other
        getList_setList selection_of_def)
  have eq: "parseStateFromUrl (updateUrlFromState u sp) =
           \<lparr>out_q = trim (searchInput u),
            out_v = versionSelect u,
            out_scopes = selection_of (scopeGroup u),
            out_topics = selection_of (topicGroup u),
            out_tiers = selection_of (tierGroup u),
            out_special = selection_of (specialGroup u),
            out_changed = changedOnly u\<rparr>"
    by (simp only: parseStateFromUrl_def q v c sc to ti sp)
  have ls: "list_set (selection_of g) = set (getSelectedValues g)" for g
    by (simp add: list_set_def selection_of_def)
  have "trim (searchInput u) = searchInput u \<Longrightarrow>
      same_filter_state (parseStateFromUrl (updateUrlFromState u sp)) u"
    unfolding eq by (simp add: same_filter_state_def ls)
  with eq show ?thesis by blast
qed

theorem url_round_trip_witness:
  "list_all url_safe
     (getSelectedValues (scopeGroup ex_padded) @ getSelectedValues (topicGroup ex_padded)
      @ getSelectedValues (tierGroup ex_padded) @ getSelectedValues (specialGroup ex_padded))
   \<and> parseStateFromUrl (updateUrlFromState ex_padded Map.empty)
      = \<lparr>out_q = ''max'', out_v = ''25.8'',
         out_scopes = Some [''session'', ''mergetree'', ''format''],
         out_topics = Some [''Performance'', ''Resource Control''],
         out_tiers = Some [''production'', ''beta'', ''experimental''],
         out_special = Some [''cloud''],
         out_changed = False\<rparr>"
proof -
  have h: "list_all url_safe
     (getSelectedValues (scopeGroup ex_padded) @ getSelectedValues (topicGroup ex_padded)
      @ getSelectedValues (tierGroup ex_padded) @ getSelectedValues (specialGroup ex_padded))"
    by code_simp
  then have h': "\<forall>x\<in>set (getSelectedValues (scopeGroup ex_padded)
        @ getSelectedValues (topicGroup ex_padded) @ getSelectedValues (tierGroup ex_padded)
        @ getSelectedValues (specialGroup ex_padded)). url_safe x"
    by (simp only: list_all_iff)
  have e: "\<lparr>out_q = trim (searchInput ex_padded),
            out_v = versionSelect ex_padded,
            out_scopes = selection_of (scopeGroup ex_padded),
            out_topics = selection_of (topicGroup ex_padded),
            out_tiers = selection_of (tierGroup ex_padded),
            out_special = selection_of (specialGroup ex_padded),
            out_changed = changedOnly ex_padded\<rparr>
      = \<lparr>out_q = ''max'', out_v = ''25.8'',
         out_scopes = Some [''session'', ''mergetree'', ''format''],
         out_topics = Some [''Performance'', ''Resource Control''],
         out_tiers = Some [''production'', ''beta'', ''experimental''],
         out_special = Some [''cloud''],
         out_changed = False\<rparr>"
    by code_simp
  from url_round_trip [OF h', of Map.empty] have
    "parseStateFromUrl (updateUrlFromState ex_padded Map.empty) =
           \<lparr>out_q = trim (searchInput ex_padded),
            out_v = versionSelect ex_padded,
            out_scopes = selection_of (scopeGroup ex_padded),
            out_topics = selection_of (topicGroup ex_padded),
            out_tiers = selection_of (tierGroup ex_padded),
            out_special = selection_of (specialGroup ex_padded),
            out_changed = changedOnly ex_padded\<rparr>"
    by blast
  with h e show ?thesis by (simp only: simp_thms)
qed

text \<open>
  C4 as the specification words it fails: with every facet selection
  non-empty, a selected topic whose name has a comma comes back as two topics, and a
  query typed with white space around it comes back without it.
\<close>

theorem url_round_trip_counterexample:
  "facets_nonempty ex_comma
   \<and> \<not> same_filter_state (parseStateFromUrl (updateUrlFromState ex_comma Map.empty)) ex_comma
   \<and> getSelectedValues (topicGroup ex_comma) = [''Query, Plan'']
   \<and> out_topics (parseStateFromUrl (updateUrlFromState ex_comma Map.empty))
       = Some [''Query'', ''Plan'']
   \<and> facets_nonempty ex_padded
   \<and> \<not> same_filter_state (parseStateFromUrl (updateUrlFromState ex_padded Map.empty)) ex_padded
   \<and> searchInput ex_padded = '' max ''
   \<and> out_q (parseStateFromUrl (updateUrlFromState ex_padded Map.empty)) = ''max''"
  by code_simp

text \<open>
  C5: the counts \<open>updateFacetCounts\<close> shows do not take the special flags into account.
  With the one non-cloud record \<open>max_threads\<close> loaded and the cloud-only flag on, no record
  is visible, also when the restriction of the scope, topic or tier family is taken away;
  the buttons for session, Performance and production nevertheless show the count 1. And
  a record whose category is also one of its inferred tags is counted twice for that topic.
\<close>

theorem facet_counts_ignore_special:
  "shown_count (scopeGroup (updateFacetCounts code_compare (Some (enrich_all ex_doc)) ex_cloud))
       ''session'' = Some 1
   \<and> shown_count (topicGroup (updateFacetCounts code_compare (Some (enrich_all ex_doc)) ex_cloud))
       ''Performance'' = Some 1
   \<and> shown_count (tierGroup (updateFacetCounts code_compare (Some (enrich_all ex_doc)) ex_cloud))
       ''production'' = Some 1
   \<and> renderList_items (Some (enrich_all ex_doc)) ex_cloud = []
   \<and> renderList_items (Some (enrich_all ex_doc))
        (ex_cloud\<lparr>scopeGroup := setAllSelected (scopeGroup ex_cloud) False\<rparr>) = []
   \<and> renderList_items (Some (enrich_all ex_doc))
        (ex_cloud\<lparr>topicGroup := setAllSelected (topicGroup ex_cloud) False\<rparr>) = []
   \<and> renderList_items (Some (enrich_all ex_doc))
        (ex_cloud\<lparr>tierGroup := setAllSelected (tierGroup ex_cloud) False\<rparr>) = []
   \<and> shown_count
        (topicGroup (updateFacetCounts code_compare
           (Some (enrich_all (ex_doc\<lparr>settings := Some [ex_password]\<rparr>))) ex_ui))
        ''Security'' = Some 2
   \<and> length (renderList_items (Some (enrich_all (ex_doc\<lparr>settings := Some [ex_password]\<rparr>)))
        (ex_ui\<lparr>topicGroup := setAllSelected (topicGroup ex_ui) False\<rparr>)) = 1"
  by code_simp

text \<open>
  What the counts are: the count of a scope or of a tier is the number of records that
  pass \<open>passFilters\<close> with the options of that family, and \<open>passFilters\<close> agrees with the
  predicate of \<open>renderList\<close> as long as no special flag is selected.
\<close>

lemma keep_is_passFilters:
  assumes "''cloud'' \<notin> set (getSelectedValues (specialGroup u))"
    and "''refs'' \<notin> set (getSelectedValues (specialGroup u))"
  shows "renderList_keep u s = passFilters u s \<lparr>ignoreTier = False, ignoreTopics = False\<rparr>"
  using assms
  by (auto simp: renderList_keep_def passFilters_def Let_def matchesQuery_def split: option.splits)

lemma fold_count:
  "fold (\<lambda>s c. if p s then bump (k s) c else c) items c0 t
     = c0 t + length (filter (\<lambda>s. p s \<and> k s = t) items)"
  by (induction items arbitrary: c0) (auto simp: bump_def)

lemma scope_counts_eq:
  "scope_counts u items t =
     length (filter (\<lambda>s. passFilters u s \<lparr>ignoreTier = False, ignoreTopics = False\<rparr>
                          \<and> (case d_scope s of None \<Rightarrow> ''undefined'' | Some k \<Rightarrow> k) = t) items)"
  unfolding scope_counts_def by (simp add: fold_count)

lemma tier_counts_eq:
  "tier_counts u items t =
     length (filter (\<lambda>s. passFilters u s \<lparr>ignoreTier = True, ignoreTopics = False\<rparr>
                          \<and> map_option (effective_tier s) (version_entry s (versionSelect u)) = Some t)
               items)"
proof -
  have "tier_counts u items =
      fold (\<lambda>s c. if passFilters u s \<lparr>ignoreTier = True, ignoreTopics = False\<rparr>
                        \<and> version_entry s (versionSelect u) \<noteq> None
                   then bump (case version_entry s (versionSelect u) of
                                None \<Rightarrow> [] | Some vi \<Rightarrow> effective_tier s vi) c
                   else c) items (\<lambda>_. 0)"
    unfolding tier_counts_def
    by (rule arg_cong [where f = "\<lambda>f. fold f items (\<lambda>_. 0)"])
       (auto simp: fun_eq_iff split: option.splits)
  then have "tier_counts u items t =
      length (filter (\<lambda>s. (passFilters u s \<lparr>ignoreTier = True, ignoreTopics = False\<rparr>
                        \<and> version_entry s (versionSelect u) \<noteq> None)
           \<and> (case version_entry s (versionSelect u) of
                                None \<Rightarrow> [] | Some vi \<Rightarrow> effective_tier s vi) = t) items)"
    by (simp add: fold_count)
  also have "\<dots> = length (filter (\<lambda>s. passFilters u s \<lparr>ignoreTier = True, ignoreTopics = False\<rparr>
                          \<and> map_option (effective_tier s) (version_entry s (versionSelect u)) = Some t)
               items)"
    by (rule arg_cong [where f = length], rule filter_cong) (auto split: option.splits)
  finally show ?thesis .
qed

end
